theory Spec2Isabelle
  imports Main "HOL-Library.AList" "HOL-Library.Char_ord" "HOL-Library.List_Lexorder"
begin

section \<open>JavaScript primitives used by the identifier engine\<close>

text \<open>
  Strings are lists of characters. \<open>split_js s d\<close> is \<^verbatim>\<open>s.split(d)\<close> for a string
  separator \<open>d\<close>: the empty separator cuts the string into its characters, any other
  separator cuts at its occurrences, found from left to right. \<open>split_go d acc rest\<close>
  scans \<open>rest\<close>, with \<open>acc\<close> the reversed segment read so far.
\<close>

fun split_go :: "string \<Rightarrow> string \<Rightarrow> string \<Rightarrow> string list" where
  "split_go d acc [] = [rev acc]"
| "split_go [] acc (c # cs) = split_go [] (c # acc) cs"
| "split_go (e # es) acc (c # cs) =
     (if take (Suc (length es)) (c # cs) = e # es
      then rev acc # split_go (e # es) [] (drop (length es) cs)
      else split_go (e # es) (c # acc) cs)"

definition split_js :: "string \<Rightarrow> string \<Rightarrow> string list" where
  "split_js s d = (if d = [] then map (\<lambda>c. [c]) s else split_go d [] s)"

text \<open>\<^verbatim>\<open>xs.join(d)\<close> on an array of strings.\<close>

fun join_js :: "string \<Rightarrow> string list \<Rightarrow> string" where
  "join_js d [] = []"
| "join_js d [x] = x"
| "join_js d (x # y # ys) = x @ d @ join_js d (y # ys)"

text \<open>
  The static separator of the registry is \<^verbatim>\<open>undefined\<close> until the first instance is
  constructed, so a separator is a \<open>string option\<close>: \<^verbatim>\<open>s.split(undefined)\<close> is the
  one-element array \<^verbatim>\<open>[s]\<close> and \<^verbatim>\<open>xs.join(undefined)\<close> joins with a comma.
\<close>

definition split_sep :: "string option \<Rightarrow> string \<Rightarrow> string list" where
  "split_sep sep s = (case sep of None \<Rightarrow> [s] | Some d \<Rightarrow> split_js s d)"

definition join_sep :: "string option \<Rightarrow> string list \<Rightarrow> string" where
  "join_sep sep xs = join_js (case sep of None \<Rightarrow> '','' | Some d \<Rightarrow> d) xs"

text \<open>
  An ES6 \<^verbatim>\<open>Set<string>\<close> iterates in insertion order: it is a list without repetitions;
  \<^verbatim>\<open>add\<close> appends a new element and leaves a present one in place.
\<close>

definition set_delete :: "string \<Rightarrow> string list \<Rightarrow> string list" where
  "set_delete x xs = removeAll x xs"

definition set_add :: "string \<Rightarrow> string list \<Rightarrow> string list" where
  "set_add x xs = (if x \<in> set xs then xs else xs @ [x])"

text \<open>
  Identifier values are \<^verbatim>\<open>string | number\<close>. \<open>VNum n\<close> is an integer-valued number in the
  safe range (\<open>\<bar>n\<bar> < 2^53\<close>), the numbers that \<^verbatim>\<open>join\<close> prints in plain decimal;
  fractions, \<^verbatim>\<open>NaN\<close> and the infinities are not represented. A read of a property that an
  object does not have itself falls through to \<^verbatim>\<open>Object.prototype\<close>: \<open>VInherited k\<close> is
  the member \<open>k\<close> of \<^verbatim>\<open>Object.prototype\<close> (a built-in function, and for \<^verbatim>\<open>__proto__\<close> the
  prototype object itself). \<open>truthy\<close> is the test of \<^verbatim>\<open>v || d\<close>, and \<open>to_String\<close> the
  conversion that \<^verbatim>\<open>Array.prototype.join\<close> applies to each element (a built-in function
  as V8 prints it).
\<close>

datatype val = VStr string | VNum int | VInherited string

fun truthy :: "val \<Rightarrow> bool" where
  "truthy (VStr s) = (s \<noteq> [])"
| "truthy (VNum n) = (n \<noteq> 0)"
| "truthy (VInherited k) = True"

definition digit_char :: "nat \<Rightarrow> char" where
  "digit_char d = char_of (48 + d)"

fun digits :: "nat \<Rightarrow> string" where
  "digits n = (if n < 10 then [digit_char n] else digits (n div 10) @ [digit_char (n mod 10)])"

fun to_String :: "val \<Rightarrow> string" where
  "to_String (VStr s) = s"
| "to_String (VNum n) = (if n < 0 then CHR ''-'' # digits (nat (- n)) else digits (nat n))"
| "to_String (VInherited k) =
     (if k = ''__proto__'' then ''[object Object]''
      else ''function '' @ (if k = ''constructor'' then ''Object'' else k) @ ''() { [native code] }'')"

text \<open>
  A plain object (an \<^verbatim>\<open>OloUri\<close>, and the \<^verbatim>\<open>uri\<close> of an identifier or of a set) is the
  list of its own properties in the order of their creation, with \<^verbatim>\<open>Object.prototype\<close>
  behind it; a name bound twice in a list denotes its first binding. The values of a
  map that a caller passes are strings or numbers.

  \<open>js_get\<close> is the read \<^verbatim>\<open>obj[k]\<close>: the own property, else the member of
  \<^verbatim>\<open>Object.prototype\<close> of that name, else \<^verbatim>\<open>undefined\<close> (here \<open>None\<close>). \<open>js_set\<close> is
  the assignment \<^verbatim>\<open>obj[k] = v\<close>: it writes the own property, keeping its place, or
  creates it last; only \<^verbatim>\<open>obj['__proto__'] = v\<close> on an object without such an own
  property runs the setter of \<^verbatim>\<open>Object.prototype\<close>, which stores nothing (it ignores a
  string or a number, and given \<^verbatim>\<open>Object.prototype\<close> leaves the prototype as it is).
\<close>

type_synonym OloUri = "(string \<times> val) list"

definition proto_names :: "string list" where
  "proto_names = [''constructor'', ''__defineGetter__'', ''__defineSetter__'', ''hasOwnProperty'',
                  ''__lookupGetter__'', ''__lookupSetter__'', ''isPrototypeOf'',
                  ''propertyIsEnumerable'', ''toString'', ''valueOf'', ''__proto__'',
                  ''toLocaleString'']"

definition js_get :: "OloUri \<Rightarrow> string \<Rightarrow> val option" where
  "js_get obj k =
     (case map_of obj k of
        Some v \<Rightarrow> Some v
      | None \<Rightarrow> if k \<in> set proto_names then Some (VInherited k) else None)"

definition runs_setter :: "(string \<times> 'a) list \<Rightarrow> string \<Rightarrow> bool" where
  "runs_setter obj k = (k = ''__proto__'' \<and> map_of obj k = None)"

definition js_set :: "(string \<times> 'a) list \<Rightarrow> string \<Rightarrow> 'a \<Rightarrow> (string \<times> 'a) list" where
  "js_set obj k v = (if runs_setter obj k then obj else AList.update k v obj)"

text \<open>
  \<^verbatim>\<open>Object.keys(obj)\<close>: the own names that are array indices (canonical decimal numerals
  below \<open>2^32 - 1\<close>) in ascending numeric order, then the other names in the order of
  their creation. \<^verbatim>\<open>Object.values(obj)\<close> follows the same order.
\<close>

definition is_digit :: "char \<Rightarrow> bool" where
  "is_digit c = (CHR ''0'' \<le> c \<and> c \<le> CHR ''9'')"

definition index_value :: "string \<Rightarrow> nat" where
  "index_value k = foldl (\<lambda>n c. 10 * n + (of_char c - 48)) 0 k"

definition is_array_index :: "string \<Rightarrow> bool" where
  "is_array_index k =
     (k \<noteq> [] \<and> list_all is_digit k \<and> (k = ''0'' \<or> hd k \<noteq> CHR ''0'')
      \<and> index_value k < 4294967295)"

definition own_names :: "(string \<times> 'a) list \<Rightarrow> string list" where
  "own_names obj = rev (remdups (rev (map fst obj)))"

definition Object_keys :: "(string \<times> 'a) list \<Rightarrow> string list" where
  "Object_keys obj =
     sort_key index_value (filter is_array_index (own_names obj))
       @ filter (\<lambda>k. \<not> is_array_index k) (own_names obj)"

definition Object_values :: "(string \<times> 'a) list \<Rightarrow> 'a list" where
  "Object_values obj = List.map_filter (map_of obj) (Object_keys obj)"

section \<open>Constants (olo-id.constants.ts)\<close>

definition ID_TYPE_UNDEFINED :: string where
  "ID_TYPE_UNDEFINED = ''UNDEFINED''"

definition ID_PROP_UNDEFINED :: string where
  "ID_PROP_UNDEFINED = ''UNDEFINED''"

definition ID_TYPE_SEPARATOR :: string where
  "ID_TYPE_SEPARATOR = ''/''"

section \<open>OloIdSyntax: the shared syntax registry\<close>

text \<open>
  The two static fields of the class. Every method below takes the registry and, where
  the method writes to it, returns the new one.
\<close>

record registry =
  separator :: "string option"
  syntaxes :: "string list"

text \<open>A syntax given by a caller: a separator-joined string or an array of names.\<close>

datatype syntax_def = SynStr string | SynList "string list"

text \<open>The argument of \<^verbatim>\<open>normSyntax\<close> and \<^verbatim>\<open>getSyntaxes\<close>: \<^verbatim>\<open>string | string[] | OloUri | undefined\<close>.\<close>

datatype syntax_query = QDef syntax_def | QUri OloUri | QUndefined

definition getSeparator :: "registry \<Rightarrow> string option" where
  "getSeparator st = separator st"

definition getSyntaxMatrix :: "registry \<Rightarrow> string list list" where
  "getSyntaxMatrix st = map (split_sep (separator st)) (syntaxes st)"

fun normSyntax :: "registry \<Rightarrow> syntax_query \<Rightarrow> string list" where
  "normSyntax st (QDef (SynStr s)) = filter (\<lambda>syntaxItem. syntaxItem \<noteq> []) (split_sep (separator st) s)"
| "normSyntax st (QDef (SynList l)) = filter (\<lambda>syntaxItem. syntaxItem \<noteq> []) l"
| "normSyntax st (QUri u) = filter (\<lambda>syntaxItem. syntaxItem \<noteq> []) (sort (Object_keys u))"
| "normSyntax st QUndefined = filter (\<lambda>syntaxItem. syntaxItem \<noteq> []) (sort (Object_keys ([] :: OloUri)))"

text \<open>One round of the \<^verbatim>\<open>forEach\<close> of \<^verbatim>\<open>registerSyntaxes\<close>, then the whole loop.\<close>

definition register_one :: "registry \<Rightarrow> syntax_def \<Rightarrow> registry" where
  "register_one st s =
     (let inputSyntax = normSyntax st (QDef s) in
      if length inputSyntax > 0
      then st\<lparr>syntaxes := set_add (join_sep (separator st) inputSyntax)
                             (set_delete ID_TYPE_UNDEFINED (syntaxes st))\<rparr>
      else st)"

definition registerSyntaxes :: "registry \<Rightarrow> syntax_def list \<Rightarrow> string list list \<times> registry" where
  "registerSyntaxes st ss = (let st' = foldl register_one st ss in (getSyntaxMatrix st', st'))"

definition syntaxMatcher :: "string list \<Rightarrow> string list \<Rightarrow> bool" where
  "syntaxMatcher inputSyntax testSyntax =
     (length (filter (\<lambda>syntaxItem. syntaxItem \<notin> set inputSyntax) testSyntax) = 0)"

definition getSyntaxes :: "registry \<Rightarrow> syntax_query \<Rightarrow> bool \<Rightarrow> string list list \<times> registry" where
  "getSyntaxes st q register =
     (let inputSyntax = normSyntax st q in
      if length inputSyntax = 0 then (getSyntaxMatrix st, st)
      else (case find (\<lambda>s. syntaxMatcher inputSyntax s \<and> length s = length inputSyntax)
                      (getSyntaxMatrix st) of
              None \<Rightarrow>
                ([inputSyntax],
                 if register then snd (registerSyntaxes st [SynList inputSyntax]) else st)
            | Some s \<Rightarrow> ([s], st)))"

definition setSyntaxes :: "registry \<Rightarrow> syntax_def list option \<Rightarrow> string list list \<times> registry" where
  "setSyntaxes st ss =
     (case ss of Some l \<Rightarrow> registerSyntaxes st l | None \<Rightarrow> getSyntaxes st QUndefined False)"

text \<open>
  The constructor: \<open>ss\<close> and \<open>seperator\<close> are \<open>None\<close> where the caller leaves the
  argument out, and the defaults of the source apply.
\<close>

definition OloIdSyntax_new :: "registry \<Rightarrow> syntax_def list option \<Rightarrow> string option \<Rightarrow> registry" where
  "OloIdSyntax_new st ss seperator =
     (let st1 = st\<lparr>separator :=
                     (case separator st of
                        None \<Rightarrow> Some (case seperator of None \<Rightarrow> ID_TYPE_SEPARATOR | Some d \<Rightarrow> d)
                      | Some d \<Rightarrow> Some d)\<rparr>
      in snd (registerSyntaxes st1 (case ss of None \<Rightarrow> [SynStr ID_TYPE_UNDEFINED] | Some l \<Rightarrow> l)))"

text \<open>The state of a process that has not constructed anything yet.\<close>

definition fresh :: registry where
  "fresh = \<lparr>separator = None, syntaxes = []\<rparr>"

section \<open>OloId: one identifier under one syntax\<close>

record OloId =
  id_separator :: "string option"
  id_syntax :: "string list"
  id_uri :: OloUri

text \<open>
  \<^verbatim>\<open>OloIdOptions\<close>; a field is \<open>None\<close> where the caller leaves it out
  (\<open>opt_register\<close> has the default \<open>False\<close> of the source).
\<close>

record OloIdOptions =
  opt_syntax :: "syntax_def option"
  opt_register :: bool
  opt_separator :: "string option"

datatype id_source = SrcUri OloUri | SrcId OloId | SrcStr string

text \<open>
  What a constructor can end with instead of an object: the \<^verbatim>\<open>TypeError\<close> of a call on
  \<^verbatim>\<open>undefined\<close>, and \<open>BuiltinSource\<close>, which marks the one situation that this
  development does not describe (see \<open>OloId_new_member\<close> below).
\<close>

datatype error = TypeError | BuiltinSource

text \<open>
  The value that the constructor stores for the property at position \<open>index\<close> of the
  syntax: \<^verbatim>\<open>workingUri[p] || ID_PROP_UNDEFINED\<close> where there is a working map (the
  source is a map or an \<^verbatim>\<open>OloId\<close>, whose \<^verbatim>\<open>toJSON()\<close> is taken), and
  \<^verbatim>\<open>uri.split(this.separator)[index] || ID_PROP_UNDEFINED\<close> for a string.
\<close>

definition or_undefined :: "val option \<Rightarrow> val" where
  "or_undefined v = (case v of None \<Rightarrow> VStr ID_PROP_UNDEFINED
                     | Some w \<Rightarrow> if truthy w then w else VStr ID_PROP_UNDEFINED)"

definition nth_opt :: "'a list \<Rightarrow> nat \<Rightarrow> 'a option" where
  "nth_opt xs i = (if i < length xs then Some (xs ! i) else None)"

fun prop_value :: "id_source \<Rightarrow> string option \<Rightarrow> string \<Rightarrow> nat \<Rightarrow> val" where
  "prop_value (SrcUri workingUri) sep identifierProperty index =
     or_undefined (js_get workingUri identifierProperty)"
| "prop_value (SrcId i) sep identifierProperty index =
     or_undefined (js_get (id_uri i) identifierProperty)"
| "prop_value (SrcStr uri) sep identifierProperty index =
     or_undefined (map_option VStr (nth_opt (split_sep sep uri) index))"

text \<open>
  The \<^verbatim>\<open>forEach\<close> over the syntax: each round assigns one property of \<^verbatim>\<open>this.uri\<close>.
\<close>

fun fill_uri :: "(string \<Rightarrow> nat \<Rightarrow> val) \<Rightarrow> string list \<Rightarrow> nat \<Rightarrow> OloUri \<Rightarrow> OloUri" where
  "fill_uri f [] index acc = acc"
| "fill_uri f (p # ps) index acc = fill_uri f ps (Suc index) (js_set acc p (f p index))"

text \<open>
  \<^verbatim>\<open>workingUri\<close> is the map of the source (\<^verbatim>\<open>undefined\<close> for a string), and
  \<^verbatim>\<open>syntax ?? workingUri\<close> is what the constructor asks the registry to resolve.
\<close>

definition working_uri :: "id_source \<Rightarrow> OloUri option" where
  "working_uri uri = (case uri of SrcId i \<Rightarrow> Some (id_uri i) | SrcStr s \<Rightarrow> None | SrcUri u \<Rightarrow> Some u)"

definition syntax_query_of :: "id_source \<Rightarrow> OloIdOptions \<Rightarrow> syntax_query" where
  "syntax_query_of uri opts =
     (case opt_syntax opts of
        Some d \<Rightarrow> QDef d
      | None \<Rightarrow> (case working_uri uri of Some u \<Rightarrow> QUri u | None \<Rightarrow> QUndefined))"

text \<open>
  The constructor. The field initialiser \<^verbatim>\<open>new OloIdSyntax()\<close> runs first. Reading
  \<^verbatim>\<open>[0]\<close> of an empty result gives \<^verbatim>\<open>undefined\<close>, and \<^verbatim>\<open>this.syntax.forEach\<close> then
  throws a \<^verbatim>\<open>TypeError\<close>.
\<close>

definition OloId_new :: "registry \<Rightarrow> id_source \<Rightarrow> OloIdOptions \<Rightarrow> (error + OloId) \<times> registry" where
  "OloId_new st uri opts =
     (let st1 = OloIdSyntax_new st None None;
          sep = (case opt_separator opts of Some d \<Rightarrow> Some d | None \<Rightarrow> getSeparator st1);
          r = getSyntaxes st1 (syntax_query_of uri opts) (opt_register opts)
      in ((case fst r of
             [] \<Rightarrow> Inl TypeError
           | syn # rest \<Rightarrow>
               Inr \<lparr>id_separator = sep, id_syntax = syn,
                    id_uri = fill_uri (prop_value uri sep) syn 0 []\<rparr>),
          snd r))"

definition OloId_toSyntaxString :: "OloId \<Rightarrow> string option \<Rightarrow> string" where
  "OloId_toSyntaxString a sep =
     join_sep (case sep of Some d \<Rightarrow> Some d | None \<Rightarrow> id_separator a) (id_syntax a)"

text \<open>
  \<^verbatim>\<open>toString\<close> maps each name of the syntax to \<^verbatim>\<open>this.uri[key]\<close> and joins the
  result; \<^verbatim>\<open>join\<close> prints an \<^verbatim>\<open>undefined\<close> element as the empty string and a number
  in decimal. \<open>OloId_values\<close> is the array that is joined, element by element as
  printed.
\<close>

definition OloId_values :: "OloId \<Rightarrow> string list" where
  "OloId_values a =
     map (\<lambda>key. case js_get (id_uri a) key of None \<Rightarrow> [] | Some v \<Rightarrow> to_String v) (id_syntax a)"

definition OloId_toString :: "OloId \<Rightarrow> string option \<Rightarrow> string" where
  "OloId_toString a sep =
     join_sep (case sep of Some d \<Rightarrow> Some d | None \<Rightarrow> id_separator a) (OloId_values a)"

definition OloId_toJSON :: "OloId \<Rightarrow> OloUri" where
  "OloId_toJSON a = id_uri a"

section \<open>OloIdSet: one identifier per applicable syntax\<close>

text \<open>
  \<^verbatim>\<open>OloIdMap\<close>, the object from syntax strings to members, in the order in which its
  properties were created.
\<close>

type_synonym OloIdMap = "(string \<times> OloId) list"

record OloIdSet =
  set_uri :: OloIdMap

text \<open>What \<^verbatim>\<open>isSame\<close> may be given.\<close>

datatype comparand = CStr string | CUri OloUri | CId OloId | CSet OloIdSet

text \<open>
  \<^verbatim>\<open>compId\<close> of \<^verbatim>\<open>OloId.isSame\<close>, given by what \<^verbatim>\<open>compId[key]\<close> reads. For an
  \<^verbatim>\<open>OloId\<close> it is its \<^verbatim>\<open>uri\<close>, for a map the map itself. A string is cut at the
  separator of the receiver and its segments are assigned, on an empty object, to the
  names of \<^verbatim>\<open>syntaxList\<close> by position (a missing segment is the empty string), except
  that a list of one name takes the whole string. Any other comparand is read as it is:
  an \<^verbatim>\<open>OloIdSet\<close> has the own properties \<^verbatim>\<open>oloIdSyntax\<close> and \<^verbatim>\<open>uri\<close>, and its class
  gives it \<^verbatim>\<open>constructor\<close>, \<^verbatim>\<open>isSame\<close>, \<^verbatim>\<open>toString\<close>, \<^verbatim>\<open>toJSON\<close> and its prototype; these are
  objects and functions of their own, never \<^verbatim>\<open>===\<close> a value that an identifier stores, and
  read as \<open>None\<close> here; every other name falls through to \<^verbatim>\<open>Object.prototype\<close>.
\<close>

definition syntaxList_of :: "OloId \<Rightarrow> syntax_def option \<Rightarrow> string list" where
  "syntaxList_of a syn =
     (case syn of Some (SynList l) \<Rightarrow> l
      | Some (SynStr s) \<Rightarrow> split_sep (id_separator a) s
      | None \<Rightarrow> id_syntax a)"

definition string_segment :: "OloId \<Rightarrow> string list \<Rightarrow> string \<Rightarrow> string \<Rightarrow> nat \<Rightarrow> val" where
  "string_segment a syntaxList identifier key index =
     VStr (if length syntaxList = 1 then identifier
           else (case nth_opt (split_sep (id_separator a) identifier) index of
                   Some seg \<Rightarrow> seg | None \<Rightarrow> []))"

definition OloIdSet_own_names :: "string list" where
  "OloIdSet_own_names = [''oloIdSyntax'', ''uri'', ''constructor'', ''isSame'', ''toString'', ''toJSON'',
                         ''__proto__'']"

fun compId :: "OloId \<Rightarrow> comparand \<Rightarrow> syntax_def option \<Rightarrow> string \<Rightarrow> val option" where
  "compId a (CId i) syn key = js_get (id_uri i) key"
| "compId a (CStr identifier) syn key =
     (let syntaxList = syntaxList_of a syn
      in js_get (fill_uri (string_segment a syntaxList identifier) syntaxList 0 []) key)"
| "compId a (CUri u) syn key = js_get u key"
| "compId a (CSet s) syn key = (if key \<in> set OloIdSet_own_names then None else js_get [] key)"

definition OloId_isSame :: "OloId \<Rightarrow> comparand \<Rightarrow> syntax_def option \<Rightarrow> bool" where
  "OloId_isSame a identifier syn =
     foldl (\<lambda>result key. if \<not> result then result
                          else compId a identifier syn key = js_get (id_uri a) key)
       True (Object_keys (id_uri a))"

text \<open>
  \<^verbatim>\<open>toJSON\<close> of a set: \<^verbatim>\<open>Object.assign(json, id.uri)\<close> for each member, which assigns
  the own properties of \<^verbatim>\<open>id.uri\<close> in the order of \<^verbatim>\<open>Object.keys\<close>.
\<close>

definition Object_assign :: "OloUri \<Rightarrow> OloUri \<Rightarrow> OloUri" where
  "Object_assign json src =
     foldl (\<lambda>j k. case map_of src k of Some v \<Rightarrow> js_set j k v | None \<Rightarrow> j) json (Object_keys src)"

definition OloIdSet_toJSON :: "OloIdMap \<Rightarrow> OloUri" where
  "OloIdSet_toJSON m =
     foldl (\<lambda>json i. Object_assign json (id_uri i)) [] (Object_values m)"

text \<open>
  \<^verbatim>\<open>isOloIdSet\<close> looks at the shape only: it holds of an \<^verbatim>\<open>OloIdSet\<close>, and of an
  \<^verbatim>\<open>OloId\<close> whose \<^verbatim>\<open>uri\<close> has no property (every value of the empty object is an
  \<^verbatim>\<open>OloId\<close>); a plain \<^verbatim>\<open>OloUri\<close> has no object under \<^verbatim>\<open>uri\<close>.
\<close>

fun isOloIdSet :: "comparand \<Rightarrow> bool" where
  "isOloIdSet (CSet t) = True"
| "isOloIdSet (CId i) = (id_uri i = [])"
| "isOloIdSet (CStr s) = False"
| "isOloIdSet (CUri u) = False"

fun normalise_comparand :: "comparand \<Rightarrow> comparand" where
  "normalise_comparand (CSet t) = CUri (OloIdSet_toJSON (set_uri t))"
| "normalise_comparand (CId i) = (if isOloIdSet (CId i) then CUri [] else CId i)"
| "normalise_comparand c = c"

text \<open>\<^verbatim>\<open>Object.values(this.uri)\<close>: the members of a set.\<close>

definition OloIdSet_members :: "OloIdSet \<Rightarrow> OloId list" where
  "OloIdSet_members s = Object_values (set_uri s)"

definition OloIdSet_isSame :: "OloIdSet \<Rightarrow> comparand \<Rightarrow> syntax_def option \<Rightarrow> bool" where
  "OloIdSet_isSame s identifier syn =
     (let ident = normalise_comparand identifier
      in foldl (\<lambda>result uri. result \<or> OloId_isSame uri ident syn) False (OloIdSet_members s))"

definition OloIdSet_toString :: "OloIdSet \<Rightarrow> string" where
  "OloIdSet_toString s = join_js '' '' (map (\<lambda>i. OloId_toString i None) (OloIdSet_members s))"

text \<open>
  The constructor. Its first branch takes a string, its second an object whose values
  are all \<^verbatim>\<open>OloId\<close>s (an \<^verbatim>\<open>OloIdMap\<close>, and also the empty \<^verbatim>\<open>OloUri\<close>), its third an
  \<^verbatim>\<open>OloUri\<close> or another \<^verbatim>\<open>OloIdSet\<close>. A member whose construction throws ends the
  constructor with that error; the registry keeps what was written until then.
\<close>

datatype set_source = SetStr string | SetMap OloIdMap | SetUri OloUri | SetSet OloIdSet

text \<open>Second branch, first pass: one \<^verbatim>\<open>getSyntaxes(uriKey, { register })[0]\<close> per key.\<close>

fun resolve_keys :: "registry \<Rightarrow> bool \<Rightarrow> string list \<Rightarrow> string list option list \<times> registry" where
  "resolve_keys st register [] = ([], st)"
| "resolve_keys st register (uriKey # ks) =
     (let (matrix, st1) = getSyntaxes st (QDef (SynStr uriKey)) register;
          (items, st2) = resolve_keys st1 register ks
      in ((case matrix of [] \<Rightarrow> None | syn # rest \<Rightarrow> Some syn) # items, st2))"

text \<open>
  \<^verbatim>\<open>new OloId(uri[syntaxKey], options)\<close>. The read finds a member of the map; or nothing,
  and the constructor treats \<^verbatim>\<open>undefined\<close> as it treats a string up to the loop over the
  syntax, whose first round then throws on \<^verbatim>\<open>undefined.split\<close>; or, for a name of
  \<^verbatim>\<open>Object.prototype\<close> that the map does not have, a member of \<^verbatim>\<open>Object.prototype\<close>.
  Under \<^verbatim>\<open>__proto__\<close> that is \<^verbatim>\<open>Object.prototype\<close> itself, which has no enumerable key
  and reads as the empty map does. Under any other such name it is a built-in
  function: the constructor resolves the syntax as for a source without keys and then
  stores properties of that function, which are not described here; the result is
  marked \<open>BuiltinSource\<close>, and the registry is the one that the constructor leaves.
\<close>

definition OloId_new_member :: "registry \<Rightarrow> OloIdMap \<Rightarrow> string \<Rightarrow> OloIdOptions \<Rightarrow> (error + OloId) \<times> registry" where
  "OloId_new_member st uri syntaxKey opts =
     (case map_of uri syntaxKey of
        Some i \<Rightarrow> OloId_new st (SrcId i) opts
      | None \<Rightarrow>
          if syntaxKey = ''__proto__'' then OloId_new st (SrcUri []) opts
          else if syntaxKey \<in> set proto_names
          then (Inl BuiltinSource, snd (OloId_new st (SrcUri []) opts))
          else (case OloId_new st (SrcStr []) opts of
                  (Inr a, st') \<Rightarrow> if id_syntax a = [] then (Inr a, st') else (Inl TypeError, st')
                | (Inl e, st') \<Rightarrow> (Inl e, st')))"

fun adopt_members :: "registry \<Rightarrow> OloIdMap \<Rightarrow> OloIdOptions \<Rightarrow> string list option list \<Rightarrow> OloIdMap
                       \<Rightarrow> (error + OloIdMap) \<times> registry" where
  "adopt_members st uri opts [] acc = (Inr acc, st)"
| "adopt_members st uri opts (syntaxItem # items) acc =
     (let syntaxKey = join_sep (case opt_separator opts of Some d \<Rightarrow> Some d | None \<Rightarrow> getSeparator st)
                        (case syntaxItem of None \<Rightarrow> [] | Some syn \<Rightarrow> syn)
      in case OloId_new_member st uri syntaxKey opts of
           (Inl e, st') \<Rightarrow> (Inl e, st')
         | (Inr a, st') \<Rightarrow> adopt_members st' uri opts items (js_set acc syntaxKey a))"

text \<open>Third branch: one \<^verbatim>\<open>OloId\<close> per syntax that \<^verbatim>\<open>getSyntaxes(workingUri)\<close> returned.\<close>

fun build_members :: "registry \<Rightarrow> OloUri \<Rightarrow> string option \<Rightarrow> string list list \<Rightarrow> OloIdMap
                       \<Rightarrow> (error + OloIdMap) \<times> registry" where
  "build_members st workingUri sepOpt [] acc = (Inr acc, st)"
| "build_members st workingUri sepOpt (syntaxItem # items) acc =
     (case OloId_new st (SrcUri workingUri)
             \<lparr>opt_syntax = Some (SynList syntaxItem), opt_register = False, opt_separator = sepOpt\<rparr> of
        (Inl e, st') \<Rightarrow> (Inl e, st')
      | (Inr a, st') \<Rightarrow>
          build_members st' workingUri sepOpt items (js_set acc (OloId_toSyntaxString a None) a))"

definition OloIdSet_of :: "(error + OloIdMap) \<times> registry \<Rightarrow> (error + OloIdSet) \<times> registry" where
  "OloIdSet_of r = (case r of (Inl e, st) \<Rightarrow> (Inl e, st) | (Inr m, st) \<Rightarrow> (Inr \<lparr>set_uri = m\<rparr>, st))"

definition OloIdSet_from_uri :: "registry \<Rightarrow> OloUri \<Rightarrow> OloIdOptions \<Rightarrow> (error + OloIdSet) \<times> registry" where
  "OloIdSet_from_uri st1 workingUri opts =
     (let (matrix, st2) = getSyntaxes st1 (QUri workingUri) (opt_register opts)
      in OloIdSet_of (build_members st2 workingUri (opt_separator opts) matrix []))"

definition OloIdSet_from_map :: "registry \<Rightarrow> OloIdMap \<Rightarrow> OloIdOptions \<Rightarrow> (error + OloIdSet) \<times> registry" where
  "OloIdSet_from_map st1 uri opts =
     (let (items, st2) = resolve_keys st1 (opt_register opts) (Object_keys uri)
      in OloIdSet_of (adopt_members st2 uri opts items []))"

definition OloIdSet_new :: "registry \<Rightarrow> set_source \<Rightarrow> OloIdOptions \<Rightarrow> (error + OloIdSet) \<times> registry" where
  "OloIdSet_new st uri opts =
     (let st1 = OloIdSyntax_new st None None
      in case uri of
           SetStr s \<Rightarrow>
             (case OloId_new st1 (SrcStr s) opts of
                (Inl e, st2) \<Rightarrow> (Inl e, st2)
              | (Inr a, st2) \<Rightarrow> (Inr \<lparr>set_uri = [(OloId_toSyntaxString a None, a)]\<rparr>, st2))
         | SetMap m \<Rightarrow> OloIdSet_from_map st1 m opts
         | SetUri u \<Rightarrow> if u = [] then OloIdSet_from_map st1 [] opts else OloIdSet_from_uri st1 u opts
         | SetSet t \<Rightarrow> OloIdSet_from_uri st1 (OloIdSet_toJSON (set_uri t)) opts)"

section \<open>Histories of the process\<close>

text \<open>
  What a program can do to the shared registry: construct a registry instance, an
  identifier or an identifier set, or call a method of a registry instance.
  \<open>step\<close> gives the registry after one action and \<open>run\<close> after a list of them.
\<close>

datatype action =
    NewOloIdSyntax "syntax_def list option" "string option"
  | NewOloId id_source OloIdOptions
  | NewOloIdSet set_source OloIdOptions
  | SetSyntaxes "syntax_def list option"
  | GetSyntaxes syntax_query bool

fun step :: "registry \<Rightarrow> action \<Rightarrow> registry" where
  "step st (NewOloIdSyntax ss seperator) = OloIdSyntax_new st ss seperator"
| "step st (NewOloId uri opts) = snd (OloId_new st uri opts)"
| "step st (NewOloIdSet uri opts) = snd (OloIdSet_new st uri opts)"
| "step st (SetSyntaxes ss) = snd (setSyntaxes st ss)"
| "step st (GetSyntaxes q register) = snd (getSyntaxes st q register)"

definition run :: "registry \<Rightarrow> action list \<Rightarrow> registry" where
  "run st acts = foldl step st acts"

fun is_construction :: "action \<Rightarrow> bool" where
  "is_construction (NewOloIdSyntax ss seperator) = True"
| "is_construction (NewOloId uri opts) = True"
| "is_construction (NewOloIdSet uri opts) = True"
| "is_construction a = False"

text \<open>Options as a caller writes them: nothing given, or only a syntax.\<close>

definition no_options :: OloIdOptions where
  "no_options = \<lparr>opt_syntax = None, opt_register = False, opt_separator = None\<rparr>"

definition with_syntax :: "string list \<Rightarrow> OloIdOptions" where
  "with_syntax l = \<lparr>opt_syntax = Some (SynList l), opt_register = False, opt_separator = None\<rparr>"

text \<open>
  The separator that the first construction installs: the one it supplies (only a
  registry instance can supply one to the registry), otherwise \<^verbatim>\<open>ID_TYPE_SEPARATOR\<close>.
\<close>

definition first_separator :: "string option \<Rightarrow> string" where
  "first_separator seperator = (case seperator of None \<Rightarrow> ID_TYPE_SEPARATOR | Some d \<Rightarrow> d)"

fun supplied_separator :: "action \<Rightarrow> string option" where
  "supplied_separator (NewOloIdSyntax ss seperator) = seperator"
| "supplied_separator a = None"

text \<open>
  The condition under which a joined string splits back into its parts.
  \<open>occurs_early d v tail\<close>: the separator \<open>d\<close> occurs in \<open>v @ tail\<close> at a position inside
  \<open>v\<close>. \<open>joins_cleanly d vs\<close>: in \<^verbatim>\<open>vs.join(d)\<close> the separator occurs, from left to
  right, at the joins only: not inside a part, and not across the end of a part into the
  separator that follows it. \<open>separable\<close> adds the empty separator, which cuts a string
  into its characters.
\<close>

fun occurs_early :: "string \<Rightarrow> string \<Rightarrow> string \<Rightarrow> bool" where
  "occurs_early d [] tail = False"
| "occurs_early d (c # cs) tail = (take (length d) (c # cs @ tail) = d \<or> occurs_early d cs tail)"

fun joins_cleanly :: "string \<Rightarrow> string list \<Rightarrow> bool" where
  "joins_cleanly d [] = True"
| "joins_cleanly d [v] = (\<not> occurs_early d v [])"
| "joins_cleanly d (v # w # ws) = (\<not> occurs_early d v d \<and> joins_cleanly d (w # ws))"

definition separable :: "string \<Rightarrow> string list \<Rightarrow> bool" where
  "separable d vs = (if d = [] then list_all (\<lambda>v. length v = 1) vs else joins_cleanly d vs)"

section \<open>The separator is set once\<close>

lemma separator_register_one: "separator (register_one st s) = separator st"
  by (simp add: register_one_def Let_def)

lemma separator_foldl_register_one: "separator (foldl register_one st ss) = separator st"
  by (induction ss arbitrary: st) (simp_all add: separator_register_one)

lemma separator_registerSyntaxes: "separator (snd (registerSyntaxes st ss)) = separator st"
  by (simp add: registerSyntaxes_def Let_def separator_foldl_register_one)

lemma separator_getSyntaxes: "separator (snd (getSyntaxes st q r)) = separator st"
  by (simp add: getSyntaxes_def Let_def separator_registerSyntaxes split: option.split)

lemma separator_setSyntaxes: "separator (snd (setSyntaxes st ss)) = separator st"
  by (simp add: setSyntaxes_def separator_registerSyntaxes separator_getSyntaxes split: option.split)

lemma separator_OloIdSyntax_new:
  "separator (OloIdSyntax_new st ss seperator) =
     (case separator st of None \<Rightarrow> Some (first_separator seperator) | Some d \<Rightarrow> Some d)"
  by (simp add: OloIdSyntax_new_def Let_def separator_registerSyntaxes first_separator_def split: option.split)

lemma snd_OloId_new:
  "snd (OloId_new st uri opts) =
     snd (getSyntaxes (OloIdSyntax_new st None None) (syntax_query_of uri opts) (opt_register opts))"
  by (simp add: OloId_new_def Let_def)

lemma separator_OloId_new:
  "separator (snd (OloId_new st uri opts)) =
     (case separator st of None \<Rightarrow> Some ID_TYPE_SEPARATOR | Some d \<Rightarrow> Some d)"
  by (simp add: snd_OloId_new separator_getSyntaxes separator_OloIdSyntax_new first_separator_def split: option.split)

lemma separator_build_members:
  "separator st = Some d \<Longrightarrow> separator (snd (build_members st w sp items acc)) = Some d"
proof (induction items arbitrary: st acc)
  case Nil
  then show ?case by simp
next
  case (Cons syntaxItem items)
  let ?o = "\<lparr>opt_syntax = Some (SynList syntaxItem), opt_register = False, opt_separator = sp\<rparr>"
  obtain r st' where n: "OloId_new st (SrcUri w) ?o = (r, st')"
    by (cases "OloId_new st (SrcUri w) ?o")
  have s': "separator st' = Some d"
    using separator_OloId_new[of st "SrcUri w" ?o] n Cons.prems by simp
  show ?case
    using n s' Cons.IH[OF s'] by (cases r) simp_all
qed

lemma separator_OloId_new_member:
  assumes "separator st = Some d"
  shows "separator (snd (OloId_new_member st uri k opts)) = Some d"
proof -
  have n: "separator (snd (OloId_new st src opts)) = Some d" for src
    using separator_OloId_new[of st src opts] assms by simp
  obtain r st' where s: "OloId_new st (SrcStr []) opts = (r, st')"
    by (cases "OloId_new st (SrcStr []) opts")
  have "separator st' = Some d" using n[of "SrcStr []"] s by simp
  then have u: "separator (snd (case OloId_new st (SrcStr []) opts of
                  (Inr a, st') \<Rightarrow> if id_syntax a = [] then (Inr a, st') else (Inl TypeError, st')
                | (Inl e, st') \<Rightarrow> (Inl e, st'))) = Some d"
    using s by (cases r) simp_all
  show ?thesis
    using n u by (simp add: OloId_new_member_def split: option.split)
qed

lemma separator_adopt_members:
  "separator st = Some d \<Longrightarrow> separator (snd (adopt_members st uri opts items acc)) = Some d"
proof (induction items arbitrary: st acc)
  case Nil
  then show ?case by simp
next
  case (Cons syntaxItem items)
  let ?k = "join_sep (case opt_separator opts of Some d \<Rightarrow> Some d | None \<Rightarrow> getSeparator st)
                        (case syntaxItem of None \<Rightarrow> [] | Some syn \<Rightarrow> syn)"
  obtain r st' where n: "OloId_new_member st uri ?k opts = (r, st')"
    by (cases "OloId_new_member st uri ?k opts")
  have s': "separator st' = Some d"
    using separator_OloId_new_member[OF Cons.prems, of uri ?k opts] n by simp
  show ?case
    using n s' Cons.IH[OF s'] by (cases r) (simp_all add: Let_def)
qed

lemma separator_resolve_keys:
  "separator (snd (resolve_keys st r ks)) = separator st"
proof (induction ks arbitrary: st)
  case Nil
  then show ?case by simp
next
  case (Cons k ks)
  obtain m st1 where g: "getSyntaxes st (QDef (SynStr k)) r = (m, st1)"
    by (cases "getSyntaxes st (QDef (SynStr k)) r")
  obtain items st2 where h: "resolve_keys st1 r ks = (items, st2)"
    by (cases "resolve_keys st1 r ks")
  have "separator st1 = separator st" using separator_getSyntaxes[of st "QDef (SynStr k)" r] g by simp
  moreover have "separator st2 = separator st1" using Cons.IH[of st1] h by simp
  ultimately show ?case using g h by simp
qed

lemma snd_OloIdSet_of: "snd (OloIdSet_of r) = snd r"
  by (cases r) (auto simp: OloIdSet_of_def split: sum.split)

lemma separator_OloIdSet_from_uri:
  "separator st = Some d \<Longrightarrow> separator (snd (OloIdSet_from_uri st w opts)) = Some d"
proof -
  assume a: "separator st = Some d"
  obtain m st2 where g: "getSyntaxes st (QUri w) (opt_register opts) = (m, st2)"
    by (cases "getSyntaxes st (QUri w) (opt_register opts)")
  have "separator st2 = Some d" using separator_getSyntaxes[of st "QUri w" "opt_register opts"] g a by simp
  then show ?thesis using g by (simp add: OloIdSet_from_uri_def snd_OloIdSet_of separator_build_members)
qed

lemma separator_OloIdSet_from_map:
  "separator st = Some d \<Longrightarrow> separator (snd (OloIdSet_from_map st m opts)) = Some d"
proof -
  assume a: "separator st = Some d"
  obtain items st2 where g: "resolve_keys st (opt_register opts) (Object_keys m) = (items, st2)"
    by (cases "resolve_keys st (opt_register opts) (Object_keys m)")
  have "separator st2 = Some d" using separator_resolve_keys[of st "opt_register opts" "Object_keys m"] g a by simp
  then show ?thesis using g by (simp add: OloIdSet_from_map_def snd_OloIdSet_of separator_adopt_members)
qed

lemma separator_OloIdSet_new:
  "separator (snd (OloIdSet_new st uri opts)) =
     (case separator st of None \<Rightarrow> Some ID_TYPE_SEPARATOR | Some d \<Rightarrow> Some d)"
proof -
  let ?d = "case separator st of None \<Rightarrow> ID_TYPE_SEPARATOR | Some d \<Rightarrow> d"
  let ?st1 = "OloIdSyntax_new st None None"
  have s1: "separator ?st1 = Some ?d"
    by (simp add: separator_OloIdSyntax_new first_separator_def split: option.split)
  have "separator (snd (OloIdSet_new st uri opts)) = Some ?d"
  proof (cases uri)
    case (SetStr s)
    obtain r st2 where n: "OloId_new ?st1 (SrcStr s) opts = (r, st2)"
      by (cases "OloId_new ?st1 (SrcStr s) opts")
    have "separator st2 = Some ?d" using separator_OloId_new[of ?st1 "SrcStr s" opts] n s1 by simp
    then show ?thesis using SetStr n by (cases r) (simp_all add: OloIdSet_new_def Let_def)
  next
    case (SetMap m)
    then show ?thesis using separator_OloIdSet_from_map[OF s1] by (simp add: OloIdSet_new_def Let_def)
  next
    case (SetUri u)
    then show ?thesis using separator_OloIdSet_from_map[OF s1] separator_OloIdSet_from_uri[OF s1]
      by (simp add: OloIdSet_new_def Let_def)
  next
    case (SetSet t)
    then show ?thesis using separator_OloIdSet_from_uri[OF s1] by (simp add: OloIdSet_new_def Let_def)
  qed
  then show ?thesis by (simp split: option.split)
qed

lemma separator_step_Some: "separator st = Some d \<Longrightarrow> separator (step st a) = Some d"
  by (cases a) (simp_all add: separator_OloIdSyntax_new separator_OloId_new separator_OloIdSet_new
      separator_setSyntaxes separator_getSyntaxes)

lemma separator_run_Some: "separator st = Some d \<Longrightarrow> separator (run st acts) = Some d"
  unfolding run_def by (induction acts arbitrary: st) (simp_all add: separator_step_Some)

lemma separator_first_construction:
  "separator st = None \<Longrightarrow> is_construction a \<Longrightarrow>
   separator (step st a) = Some (first_separator (supplied_separator a))"
  by (cases a) (simp_all add: separator_OloIdSyntax_new separator_OloId_new separator_OloIdSet_new first_separator_def)

text \<open>
  Claim C8. Whichever construction comes first in a process (a registry instance, an
  identifier or an identifier set) sets the separator of the registry, to the value a
  registry instance supplies and to \<open>/\<close> otherwise; after that no construction and no
  method call changes it, whatever separator it supplies, so \<^verbatim>\<open>getSeparator()\<close> keeps
  returning the value set first.
\<close>

theorem separator_set_once:
  assumes "separator st = None" and "is_construction a"
  shows "getSeparator (step st a) = Some (first_separator (supplied_separator a))
         \<and> getSeparator (run (step st a) acts) = getSeparator (step st a)"
  using separator_first_construction[OF assms] separator_run_Some
  by (simp add: getSeparator_def)

theorem separator_set_once_witness:
  "separator fresh = None \<and> is_construction (NewOloIdSyntax None (Some ''-''))
   \<and> getSeparator (run (step fresh (NewOloIdSyntax None (Some ''-'')))
        [NewOloIdSyntax (Some [SynStr ''a+b'']) (Some ''+''),
         NewOloId (SrcStr ''x_y'') \<lparr>opt_syntax = Some (SynList [''p'', ''q'']), opt_register = True, opt_separator = Some ''_''\<rparr>])
       = Some ''-''"
  using separator_set_once[of fresh "NewOloIdSyntax None (Some ''-'')"
        "[NewOloIdSyntax (Some [SynStr ''a+b'']) (Some ''+''),
         NewOloId (SrcStr ''x_y'') \<lparr>opt_syntax = Some (SynList [''p'', ''q'']), opt_register = True, opt_separator = Some ''_''\<rparr>]"]
  by (simp add: fresh_def first_separator_def)

section \<open>The constructor of an identifier returns\<close>

text \<open>
  The constructor throws only when the registry has no syntax to offer: it must be
  empty, and the separator must be the string \<^verbatim>\<open>"UNDEFINED"\<close> itself, so that the
  sentinel, cut at the separator, has no name left to register.
\<close>

lemma split_go_first: "\<exists>t rest. split_go (e # es) acc s = (rev acc @ t) # rest"
proof (induction s arbitrary: acc)
  case Nil
  then show ?case by simp
next
  case (Cons c cs)
  show ?case
  proof (cases "take (Suc (length es)) (c # cs) = e # es")
    case True
    then show ?thesis by simp
  next
    case False
    from Cons.IH[of "c # acc"] obtain t rest where
      "split_go (e # es) (c # acc) cs = (rev (c # acc) @ t) # rest" by blast
    with False show ?thesis by auto
  qed
qed

lemma split_js_first_nonempty:
  assumes "d \<noteq> []" and "s \<noteq> []" and "take (length d) s \<noteq> d"
  shows "filter (\<lambda>x. x \<noteq> []) (split_js s d) \<noteq> []"
proof -
  obtain e es where d: "d = e # es" using assms(1) by (cases d) auto
  obtain c cs where s: "s = c # cs" using assms(2) by (cases s) auto
  from split_go_first[of e es "[c]" cs] obtain t rest where
    "split_go (e # es) [c] cs = ([c] @ t) # rest" by auto
  with assms(3) have "split_js s d = (c # t) # rest"
    by (simp add: split_js_def d s)
  then show ?thesis by simp
qed

lemma sentinel_prefixes:
  "\<forall>n \<in> set [1..<9]. filter (\<lambda>x. x \<noteq> []) (split_js ''UNDEFINED'' (take n ''UNDEFINED'')) \<noteq> []"
  by code_simp

lemma sentinel_splits:
  assumes "d \<noteq> ''UNDEFINED''"
  shows "filter (\<lambda>x. x \<noteq> []) (split_js ''UNDEFINED'' d) \<noteq> []"
proof (cases "d = []")
  case True
  then show ?thesis by (simp add: split_js_def)
next
  case False
  show ?thesis
  proof (cases "take (length d) ''UNDEFINED'' = d")
    case True
    have "0 < length d" using False by simp
    moreover have "length d < 9"
    proof (rule ccontr)
      assume "\<not> length d < 9"
      then have "take (length d) ''UNDEFINED'' = ''UNDEFINED''" by simp
      with True assms show False by (simp only:)
    qed
    ultimately have "length d \<in> set [1..<9]" by (simp add: Suc_le_eq)
    with sentinel_prefixes
    have "filter (\<lambda>x. x \<noteq> []) (split_js ''UNDEFINED'' (take (length d) ''UNDEFINED'')) \<noteq> []"
      by (rule bspec)
    from this[unfolded True] show ?thesis .
  next
    case n: False
    show ?thesis by (rule split_js_first_nonempty[OF False _ n]) simp
  qed
qed

lemma set_add_nonempty: "set_add x xs \<noteq> []"
  by (auto simp: set_add_def)

lemma OloIdSyntax_new_nonempty:
  assumes "syntaxes st \<noteq> [] \<or> separator st \<noteq> Some ''UNDEFINED''"
  shows "syntaxes (OloIdSyntax_new st None None) \<noteq> []"
proof -
  let ?st1 = "st\<lparr>separator := (case separator st of None \<Rightarrow> Some ID_TYPE_SEPARATOR | Some d \<Rightarrow> Some d)\<rparr>"
  have n: "OloIdSyntax_new st None None = register_one ?st1 (SynStr ID_TYPE_UNDEFINED)"
    by (cases "separator st") (simp_all add: OloIdSyntax_new_def registerSyntaxes_def Let_def)
  show ?thesis
  proof (cases "normSyntax ?st1 (QDef (SynStr ID_TYPE_UNDEFINED)) = []")
    case False
    then show ?thesis by (simp add: n register_one_def Let_def set_add_nonempty)
  next
    case True
    have "separator st = Some ''UNDEFINED''"
    proof (rule ccontr)
      assume a: "separator st \<noteq> Some ''UNDEFINED''"
      obtain d where d: "separator ?st1 = Some d" "d \<noteq> ''UNDEFINED''"
        using a by (cases "separator st") (simp_all add: ID_TYPE_SEPARATOR_def)
      from sentinel_splits[OF d(2)] True d(1) show False
        by (simp add: split_sep_def ID_TYPE_UNDEFINED_def)
    qed
    with assms have "syntaxes st \<noteq> []" by simp
    with True show ?thesis by (simp add: n register_one_def Let_def)
  qed
qed

lemma getSyntaxes_nonempty: "syntaxes st \<noteq> [] \<Longrightarrow> fst (getSyntaxes st q r) \<noteq> []"
  by (simp add: getSyntaxes_def getSyntaxMatrix_def Let_def split: option.split)

lemma OloId_new_returns:
  assumes "syntaxes st \<noteq> [] \<or> separator st \<noteq> Some ''UNDEFINED''"
  shows "\<exists>a. fst (OloId_new st uri opts) = Inr a"
  using getSyntaxes_nonempty[OF OloIdSyntax_new_nonempty[OF assms], of "syntax_query_of uri opts" "opt_register opts"]
  by (simp add: OloId_new_def Let_def split: list.split)

lemma OloId_new_throws:
  "fst (OloId_new \<lparr>separator = Some ''UNDEFINED'', syntaxes = []\<rparr> (SrcStr ''x'') no_options) = Inl TypeError"
  by code_simp

section \<open>Resolving and registering syntaxes\<close>

text \<open>
  \<^verbatim>\<open>getSyntaxes\<close> compares name sets: two queries with the same names and the same number
  of names resolve to the same registered syntax, in its registered order. Registering a
  syntax other than the sentinel removes the sentinel.
\<close>

lemma syntaxMatcher_subset: "syntaxMatcher inputSyntax testSyntax = (set testSyntax \<subseteq> set inputSyntax)"
  by (auto simp: syntaxMatcher_def filter_empty_conv)

lemma getSyntaxes_ignores_order:
  assumes "set (normSyntax st q) = set (normSyntax st q')"
    and "length (normSyntax st q) = length (normSyntax st q')"
    and "find (\<lambda>s. set s \<subseteq> set (normSyntax st q) \<and> length s = length (normSyntax st q))
           (getSyntaxMatrix st) = Some registered"
    and "normSyntax st q \<noteq> []"
  shows "getSyntaxes st q r = ([registered], st)" and "getSyntaxes st q' r = ([registered], st)"
proof -
  show "getSyntaxes st q r = ([registered], st)"
    using assms(3,4) by (simp add: getSyntaxes_def Let_def syntaxMatcher_subset)
  have "normSyntax st q' \<noteq> []" using assms(2,4) by auto
  then show "getSyntaxes st q' r = ([registered], st)"
    using assms(1,2,3) by (simp add: getSyntaxes_def Let_def syntaxMatcher_subset)
qed

lemma register_one_evicts_sentinel:
  assumes "normSyntax st (QDef s) \<noteq> []"
    and "join_sep (separator st) (normSyntax st (QDef s)) \<noteq> ID_TYPE_UNDEFINED"
  shows "ID_TYPE_UNDEFINED \<notin> set (syntaxes (register_one st s))"
  using assms by (auto simp: register_one_def Let_def set_add_def set_delete_def)

section \<open>What the constructor of an identifier establishes\<close>

lemma map_of_js_set:
  "map_of (js_set obj k v) k' = (if runs_setter obj k then map_of obj k' else ((map_of obj)(k \<mapsto> v)) k')"
  by (simp add: js_set_def update_conv')



lemma runs_setter_iff: "map_of obj ''__proto__'' = None \<Longrightarrow> runs_setter obj k = (k = ''__proto__'')"
  by (auto simp: runs_setter_def)




lemma fill_uri_no_proto:
  "map_of acc ''__proto__'' = None \<Longrightarrow> map_of (fill_uri f ps i acc) ''__proto__'' = None"
proof (induction ps arbitrary: i acc)
  case Nil
  then show ?case by simp
next
  case (Cons p ps)
  have "map_of (js_set acc p (f p i)) ''__proto__'' = None"
    using Cons.prems by (cases "p = ''__proto__''") (simp_all add: map_of_js_set runs_setter_iff)
  from Cons.IH[OF this] show ?case by simp
qed








lemma fill_uri_cong:
  "(\<And>j. j < length ps \<Longrightarrow> f (ps ! j) (i + j) = g (ps ! j) (i + j)) \<Longrightarrow>
   fill_uri f ps i acc = fill_uri g ps i acc"
proof (induction ps arbitrary: i acc)
  case Nil
  then show ?case by simp
next
  case (Cons p ps)
  have h: "f p i = g p i" using Cons.prems[of 0] by simp
  have "\<And>j. j < length ps \<Longrightarrow> f (ps ! j) (Suc i + j) = g (ps ! j) (Suc i + j)"
    using Cons.prems[of "Suc j" for j] by simp
  from Cons.IH[OF this] h show ?case by simp
qed

lemma set_own_names: "set (own_names obj) = fst ` set obj"
  by (simp add: own_names_def)

lemma set_Object_keys: "set (Object_keys obj) = fst ` set obj"
  by (auto simp: Object_keys_def set_own_names)

lemma foldl_and: "foldl (\<lambda>result key. if \<not> result then result else P key) b ks = (b \<and> list_all P ks)"
  by (induction ks arbitrary: b) auto

lemma OloId_isSame_all:
  "OloId_isSame a other syn =
     (\<forall>k \<in> fst ` set (id_uri a). compId a other syn k = js_get (id_uri a) k)"
  by (simp add: OloId_isSame_def foldl_and list_all_iff set_Object_keys)

lemma OloId_new_Inr:
  assumes "OloId_new st uri opts = (Inr a, st')"
  shows "id_uri a = fill_uri (prop_value uri (id_separator a)) (id_syntax a) 0 []"
    and "id_separator a = (case opt_separator opts of Some d \<Rightarrow> Some d
                           | None \<Rightarrow> getSeparator (OloIdSyntax_new st None None))"
    and "\<exists>rest. fst (getSyntaxes (OloIdSyntax_new st None None) (syntax_query_of uri opts) (opt_register opts))
           = id_syntax a # rest"
  using assms by (auto simp: OloId_new_def Let_def split: list.splits)


lemma OloId_new_no_proto:
  assumes "OloId_new st uri opts = (Inr a, st')"
  shows "map_of (id_uri a) ''__proto__'' = None"
  using OloId_new_Inr(1)[OF assms] fill_uri_no_proto[of "[]" _ "id_syntax a" 0] by simp

lemma OloId_new_separator:
  assumes "OloId_new st uri opts = (Inr a, st')"
  shows "\<exists>d. id_separator a = Some d"
  using OloId_new_Inr(2)[OF assms] separator_OloIdSyntax_new[of st None None]
  by (auto simp: getSeparator_def split: option.splits)




section \<open>The placeholder\<close>




section \<open>Comparison\<close>









lemma isSame_one_name:
  assumes "syntaxList_of a syn = [k]"
  shows "OloId_isSame a (CStr s) syn
       = (\<forall>key \<in> set (Object_keys (OloId_toJSON a)).
            js_get (js_set [] k (VStr s)) key = js_get (OloId_toJSON a) key)"
  using assms
  by (simp add: OloId_isSame_all set_Object_keys OloId_toJSON_def Let_def string_segment_def)

text \<open>
  Claim C10. When \<^verbatim>\<open>isSame\<close> is given a string \<open>s\<close> and the effective syntax has one
  name \<open>k\<close> (the option is the array \<^verbatim>\<open>[k]\<close>, or a string that the receiver's
  separator leaves whole, or there is no option and the receiver's syntax is \<^verbatim>\<open>[k]\<close>),
  the candidate is the empty object with \<open>k\<close> set to the whole of \<open>s\<close>, which is not
  cut at the separator. So an identifier whose only value is that string compares equal
  to it, whatever the string contains.
\<close>

theorem isSame_one_name_whole_string:
  "(\<forall>k s. OloId_isSame a (CStr s) (Some (SynList [k]))
            = (\<forall>key \<in> set (Object_keys (OloId_toJSON a)).
                 js_get (js_set [] k (VStr s)) key = js_get (OloId_toJSON a) key))
   \<and> (\<forall>k s t. split_sep (id_separator a) t = [k]
          \<longrightarrow> OloId_isSame a (CStr s) (Some (SynStr t))
              = (\<forall>key \<in> set (Object_keys (OloId_toJSON a)).
                   js_get (js_set [] k (VStr s)) key = js_get (OloId_toJSON a) key))
   \<and> (\<forall>k s. id_syntax a = [k]
          \<longrightarrow> OloId_isSame a (CStr s) None
              = (\<forall>key \<in> set (Object_keys (OloId_toJSON a)).
                   js_get (js_set [] k (VStr s)) key = js_get (OloId_toJSON a) key))
   \<and> (\<forall>k s. k \<noteq> ''__proto__'' \<and> id_syntax a = [k] \<and> OloId_toJSON a = [(k, VStr s)]
          \<longrightarrow> OloId_isSame a (CStr s) None \<and> OloId_isSame a (CStr s) (Some (SynList [k])))"
proof (intro conjI allI impI)
  fix k s
  show "OloId_isSame a (CStr s) (Some (SynList [k]))
            = (\<forall>key \<in> set (Object_keys (OloId_toJSON a)).
                 js_get (js_set [] k (VStr s)) key = js_get (OloId_toJSON a) key)"
    by (rule isSame_one_name) (simp add: syntaxList_of_def)
next
  fix k s t
  assume "split_sep (id_separator a) t = [k]"
  then show "OloId_isSame a (CStr s) (Some (SynStr t))
              = (\<forall>key \<in> set (Object_keys (OloId_toJSON a)).
                   js_get (js_set [] k (VStr s)) key = js_get (OloId_toJSON a) key)"
    by (intro isSame_one_name) (simp add: syntaxList_of_def)
next
  fix k s
  assume "id_syntax a = [k]"
  then show "OloId_isSame a (CStr s) None
              = (\<forall>key \<in> set (Object_keys (OloId_toJSON a)).
                   js_get (js_set [] k (VStr s)) key = js_get (OloId_toJSON a) key)"
    by (intro isSame_one_name) (simp add: syntaxList_of_def)
next
  fix k s
  assume h: "k \<noteq> ''__proto__'' \<and> id_syntax a = [k] \<and> OloId_toJSON a = [(k, VStr s)]"
  then have r: "\<not> runs_setter ([] :: OloUri) k" by (simp add: runs_setter_def)
  have e: "\<forall>key \<in> set (Object_keys (OloId_toJSON a)).
             js_get (js_set [] k (VStr s)) key = js_get (OloId_toJSON a) key"
    using h r by (simp add: js_set_def)
  from h have 1: "syntaxList_of a None = [k]" by (simp add: syntaxList_of_def)
  have 2: "syntaxList_of a (Some (SynList [k])) = [k]" by (simp add: syntaxList_of_def)
  show "OloId_isSame a (CStr s) None" using isSame_one_name[OF 1, of s] e by simp
  show "OloId_isSame a (CStr s) (Some (SynList [k]))" using isSame_one_name[OF 2, of s] e by simp
qed

theorem isSame_one_name_whole_string_witness:
  "fst (OloId_new fresh (SrcUri [(''path'', VStr ''a/b'')]) no_options)
       = Inr \<lparr>id_separator = Some ''/'', id_syntax = [''path''], id_uri = [(''path'', VStr ''a/b'')]\<rparr>
   \<and> split_sep (Some ''/'') ''a/b'' = [''a'', ''b'']
   \<and> split_sep (Some ''/'') ''path'' = [''path'']
   \<and> OloId_isSame \<lparr>id_separator = Some ''/'', id_syntax = [''path''], id_uri = [(''path'', VStr ''a/b'')]\<rparr>
        (CStr ''a/b'') None
   \<and> OloId_isSame \<lparr>id_separator = Some ''/'', id_syntax = [''path''], id_uri = [(''path'', VStr ''a/b'')]\<rparr>
        (CStr ''a/b'') (Some (SynList [''path'']))
   \<and> OloId_isSame \<lparr>id_separator = Some ''/'', id_syntax = [''path''], id_uri = [(''path'', VStr ''a/b'')]\<rparr>
        (CStr ''a/b'') (Some (SynStr ''path''))
   \<and> fst (OloId_new fresh (SrcStr ''a/b'') (with_syntax [''first'', ''second'']))
       = Inr \<lparr>id_separator = Some ''/'', id_syntax = [''first'', ''second''],
              id_uri = [(''first'', VStr ''a''), (''second'', VStr ''b'')]\<rparr>
   \<and> OloId_isSame \<lparr>id_separator = Some ''/'', id_syntax = [''first'', ''second''],
              id_uri = [(''first'', VStr ''a''), (''second'', VStr ''b'')]\<rparr> (CStr ''a/b'') None
   \<and> \<not> OloId_isSame \<lparr>id_separator = Some ''/'', id_syntax = [''first'', ''second''],
              id_uri = [(''first'', VStr ''a''), (''second'', VStr ''b'')]\<rparr> (CStr ''a/b'')
            (Some (SynList [''first'']))"
proof -
  let ?a = "\<lparr>id_separator = Some ''/'', id_syntax = [''path''], id_uri = [(''path'', VStr ''a/b'')]\<rparr>"
  let ?r = "\<lparr>id_separator = Some ''/'', id_syntax = [''first'', ''second''],
              id_uri = [(''first'', VStr ''a''), (''second'', VStr ''b'')]\<rparr>"
  have c: "fst (OloId_new fresh (SrcUri [(''path'', VStr ''a/b'')]) no_options) = Inr ?a"
    by code_simp
  have d: "fst (OloId_new fresh (SrcStr ''a/b'') (with_syntax [''first'', ''second''])) = Inr ?r"
    by code_simp
  have spa: "split_sep (Some ''/'') ''a/b'' = [''a'', ''b'']" by code_simp
  have spp: "split_sep (Some ''/'') ''path'' = [''path'']" by code_simp
  have h: "''path'' \<noteq> ''__proto__'' \<and> id_syntax ?a = [''path''] \<and> OloId_toJSON ?a = [(''path'', VStr ''a/b'')]"
    by (simp add: OloId_toJSON_def)
  note w = isSame_one_name_whole_string[of ?a, THEN conjunct2, THEN conjunct2, THEN conjunct2,
             rule_format, OF h]
  have 1: "OloId_isSame ?a (CStr ''a/b'') None" by (rule w[THEN conjunct1])
  have 2: "OloId_isSame ?a (CStr ''a/b'') (Some (SynList [''path'']))" by (rule w[THEN conjunct2])
  have 3: "OloId_isSame ?a (CStr ''a/b'') (Some (SynStr ''path''))" by code_simp
  have 4: "OloId_isSame ?r (CStr ''a/b'') None" by code_simp
  have 5: "\<not> OloId_isSame ?r (CStr ''a/b'') (Some (SynList [''first'']))" by code_simp
  show ?thesis by (intro conjI; fact)
qed

section \<open>Falsy values\<close>

lemma OloId_values_nth:
  "i < length (id_syntax a) \<Longrightarrow> js_get (id_uri a) (id_syntax a ! i) = Some v \<Longrightarrow>
   OloId_values a ! i = to_String v"
  by (simp add: OloId_values_def)












section \<open>Comparison against a set\<close>

lemma foldl_or: "foldl (\<lambda>result uri. result \<or> P uri) b ms = (b \<or> list_ex P ms)"
  by (induction ms arbitrary: b) auto

lemma compId_empty_id: "id_uri i = [] \<Longrightarrow> compId m (CId i) syn key = compId m (CUri []) syn key"
  by simp

lemma OloId_isSame_normalise:
  "\<not> (\<exists>t. x = CSet t) \<Longrightarrow> OloId_isSame m (normalise_comparand x) syn = OloId_isSame m x syn"
  by (cases x) (simp_all add: OloId_isSame_def)

text \<open>
  Claim C5, as amended. \<^verbatim>\<open>set.isSame(x)\<close> is true exactly when some member returns
  true from its own \<^verbatim>\<open>isSame\<close>, given \<open>x\<close> itself when \<open>x\<close> is a string, a map or an
  identifier, and given the merged map \<^verbatim>\<open>toJSON()\<close> of \<open>x\<close> when \<open>x\<close> is an
  identifier set.
\<close>

theorem set_isSame_or_law:
  "OloIdSet_isSame s x syn
     = (\<exists>m \<in> set (OloIdSet_members s).
          OloId_isSame m (case x of CSet t \<Rightarrow> CUri (OloIdSet_toJSON (set_uri t)) | _ \<Rightarrow> x) syn)"
proof (cases "\<exists>t. x = CSet t")
  case True
  then show ?thesis
    by (auto simp: OloIdSet_isSame_def foldl_or list_ex_iff)
next
  case False
  then have "(case x of CSet t \<Rightarrow> CUri (OloIdSet_toJSON (set_uri t)) | _ \<Rightarrow> x) = x"
    by (cases x) simp_all
  then show ?thesis using OloId_isSame_normalise[OF False]
    by (simp add: OloIdSet_isSame_def foldl_or list_ex_iff)
qed

theorem set_isSame_or_law_witness:
  "OloIdSet_isSame
     \<lparr>set_uri = [(''type1/type2'', \<lparr>id_separator = Some ''/'', id_syntax = [''type1'', ''type2''],
                    id_uri = [(''type1'', VStr ''value1''), (''type2'', VStr ''value2'')]\<rparr>)]\<rparr>
     (CStr ''value2/value1'') (Some (SynList [''type2'', ''type1'']))"
  using set_isSame_or_law[of
     "\<lparr>set_uri = [(''type1/type2'', \<lparr>id_separator = Some ''/'', id_syntax = [''type1'', ''type2''],
                    id_uri = [(''type1'', VStr ''value1''), (''type2'', VStr ''value2'')]\<rparr>)]\<rparr>"
     "CStr ''value2/value1''" "Some (SynList [''type2'', ''type1''])"]
  by code_simp

text \<open>
  The claim as it was stated fails for a comparand that is an identifier set: the set
  built from \<^verbatim>\<open>'value1/value2'\<close> is the same as itself, while its only member, given
  the set object, finds none of its properties there and returns false.
\<close>

theorem set_isSame_or_law_counterexample:
  "fst (OloIdSet_new fresh (SetStr ''value1/value2'') (with_syntax [''type1'', ''type2'']))
     = Inr \<lparr>set_uri = [(''type1/type2'', \<lparr>id_separator = Some ''/'', id_syntax = [''type1'', ''type2''],
                    id_uri = [(''type1'', VStr ''value1''), (''type2'', VStr ''value2'')]\<rparr>)]\<rparr>
   \<and> OloIdSet_isSame
     \<lparr>set_uri = [(''type1/type2'', \<lparr>id_separator = Some ''/'', id_syntax = [''type1'', ''type2''],
                    id_uri = [(''type1'', VStr ''value1''), (''type2'', VStr ''value2'')]\<rparr>)]\<rparr>
     (CSet \<lparr>set_uri = [(''type1/type2'', \<lparr>id_separator = Some ''/'', id_syntax = [''type1'', ''type2''],
                    id_uri = [(''type1'', VStr ''value1''), (''type2'', VStr ''value2'')]\<rparr>)]\<rparr>) None
   \<and> \<not> OloId_isSame \<lparr>id_separator = Some ''/'', id_syntax = [''type1'', ''type2''],
                    id_uri = [(''type1'', VStr ''value1''), (''type2'', VStr ''value2'')]\<rparr>
     (CSet \<lparr>set_uri = [(''type1/type2'', \<lparr>id_separator = Some ''/'', id_syntax = [''type1'', ''type2''],
                    id_uri = [(''type1'', VStr ''value1''), (''type2'', VStr ''value2'')]\<rparr>)]\<rparr>) None"
  by code_simp

section \<open>From an identifier to its string and back\<close>

lemma take_prefix: "n \<le> length xs \<Longrightarrow> take n (xs @ ys) = take n xs"
  by simp

lemma split_go_clean_end:
  "\<not> occurs_early (e # es) v [] \<Longrightarrow> split_go (e # es) acc v = [rev acc @ v]"
  by (induction v arbitrary: acc) auto

lemma split_go_clean_cut:
  "\<not> occurs_early (e # es) v (e # es) \<Longrightarrow>
   split_go (e # es) acc (v @ (e # es) @ rest) = (rev acc @ v) # split_go (e # es) [] rest"
proof (induction v arbitrary: acc)
  case Nil
  show ?case by simp
next
  case (Cons c cs)
  have n: "take (Suc (length es)) (c # cs @ (e # es) @ rest) \<noteq> e # es"
  proof
    assume h: "take (Suc (length es)) (c # cs @ (e # es) @ rest) = e # es"
    have "take (Suc (length es)) ((c # cs @ e # es) @ rest) = take (Suc (length es)) (c # cs @ e # es)"
      by (rule take_prefix) simp
    then have "take (Suc (length es)) (c # cs @ (e # es) @ rest) = take (Suc (length es)) (c # cs @ (e # es))"
      by simp
    with h Cons.prems show False by simp
  qed
  from Cons.prems have "\<not> occurs_early (e # es) cs (e # es)" by simp
  from Cons.IH[OF this, of "c # acc"] n show ?case by simp
qed

lemma split_join_clean:
  "vs \<noteq> [] \<Longrightarrow> joins_cleanly (e # es) vs \<Longrightarrow> split_go (e # es) [] (join_js (e # es) vs) = vs"
proof (induction "e # es" vs rule: join_js.induct)
  case 1
  then show ?case by simp
next
  case (2 x)
  then show ?case by (simp add: split_go_clean_end)
next
  case (3 x y ys)
  then show ?case using split_go_clean_cut[of e es x "[]" "join_js (e # es) (y # ys)"] by simp
qed

lemma join_js_empty: "join_js [] vs = concat vs"
  by (induction "[] :: string" vs rule: join_js.induct) simp_all

lemma split_chars: "list_all (\<lambda>v. length v = 1) vs \<Longrightarrow> map (\<lambda>c. [c]) (concat vs) = vs"
proof (induction vs)
  case Nil
  then show ?case by simp
next
  case (Cons v vs)
  then obtain c where "v = [c]" by (cases v) auto
  with Cons show ?case by simp
qed

lemma split_join_separable:
  assumes "separable d vs" and "vs \<noteq> []"
  shows "split_js (join_js d vs) d = vs"
proof (cases d)
  case Nil
  with assms show ?thesis by (simp add: separable_def split_js_def join_js_empty split_chars)
next
  case (Cons e es)
  with assms show ?thesis by (simp add: separable_def split_js_def split_join_clean)
qed























lemma occurs_early_tail:
  "length d \<le> length tail \<Longrightarrow> take (length d) tail = take (length d) tail' \<Longrightarrow> length d \<le> length tail' \<Longrightarrow>
   occurs_early d v tail = occurs_early d v tail'"
proof (induction v)
  case Nil
  show ?case by simp
next
  case (Cons c cs)
  have "take (length d) (c # cs @ tail) = take (length d) (c # cs @ tail')"
  proof (cases "length d")
    case 0
    then show ?thesis by simp
  next
    case (Suc n)
    have "take n (cs @ tail) = take n cs @ take (n - length cs) tail" by simp
    moreover have "take n (cs @ tail') = take n cs @ take (n - length cs) tail'" by simp
    moreover have "take (n - length cs) tail = take (n - length cs) tail'"
    proof -
      have "take (n - length cs) (take (length d) tail) = take (n - length cs) (take (length d) tail')"
        using Cons.prems(2) by simp
      moreover have "n - length cs \<le> length d" using Suc by simp
      ultimately show ?thesis by (simp add: min_absorb1)
    qed
    ultimately show ?thesis using Suc by simp
  qed
  with Cons show ?case by simp
qed

lemma split_go_early:
  "occurs_early (e # es) v tail \<Longrightarrow>
   \<exists>t rest. split_go (e # es) acc (v @ tail) = (rev acc @ t) # rest \<and> length t < length v"
proof (induction v arbitrary: acc)
  case Nil
  then show ?case by simp
next
  case (Cons c cs)
  show ?case
  proof (cases "take (Suc (length es)) (c # cs @ tail) = e # es")
    case True
    then have "split_go (e # es) acc ((c # cs) @ tail)
                 = (rev acc @ []) # split_go (e # es) [] (drop (length es) (cs @ tail))"
      by simp
    then show ?thesis by (intro exI[of _ "[]"] exI conjI) simp_all
  next
    case False
    with Cons.prems have "occurs_early (e # es) cs tail" by auto
    from Cons.IH[OF this, of "c # acc"] obtain t rest where
      t: "split_go (e # es) (c # acc) (cs @ tail) = (rev (c # acc) @ t) # rest" "length t < length cs"
      by blast
    from False t(1) have "split_go (e # es) acc ((c # cs) @ tail) = (rev acc @ (c # t)) # rest"
      by simp
    with t(2) show ?thesis by (intro exI[of _ "c # t"] exI conjI) simp_all
  qed
qed

lemma split_join_clean_conv:
  "vs \<noteq> [] \<Longrightarrow> split_go (e # es) [] (join_js (e # es) vs) = vs \<Longrightarrow> joins_cleanly (e # es) vs"
proof (induction "e # es" vs rule: join_js.induct)
  case 1
  then show ?case by simp
next
  case (2 x)
  show ?case
  proof (rule ccontr)
    assume "\<not> joins_cleanly (e # es) [x]"
    then have "occurs_early (e # es) x []" by simp
    from split_go_early[OF this, of "[]"] 2(2) show False by auto
  qed
next
  case (3 x y ys)
  let ?rest = "join_js (e # es) (y # ys)"
  have n: "\<not> occurs_early (e # es) x (e # es)"
  proof
    assume "occurs_early (e # es) x (e # es)"
    then have "occurs_early (e # es) x ((e # es) @ ?rest)"
      using occurs_early_tail[of "e # es" "e # es" "(e # es) @ ?rest" x] by simp
    from split_go_early[OF this, of "[]"] 3(3) show False by auto
  qed
  from split_go_clean_cut[OF n, of "[]" ?rest] 3(3)
  have "split_go (e # es) [] ?rest = y # ys" by simp
  with 3(1) n show ?case by simp
qed

lemma split_chars_conv: "map (\<lambda>c. [c]) s = vs \<Longrightarrow> list_all (\<lambda>v. length v = 1) vs"
  by (auto simp: list_all_iff)

text \<open>
  The condition is exact: a list of parts that is not empty comes back from
  \<^verbatim>\<open>vs.join(d).split(d)\<close> if and only if it is separable.
\<close>

lemma separable_iff:
  assumes "vs \<noteq> []"
  shows "(split_js (join_js d vs) d = vs) = separable d vs"
proof
  assume "separable d vs"
  then show "split_js (join_js d vs) d = vs" using assms by (rule split_join_separable)
next
  assume h: "split_js (join_js d vs) d = vs"
  show "separable d vs"
  proof (cases d)
    case Nil
    with h have "map (\<lambda>c. [c]) (concat vs) = vs" by (simp add: split_js_def join_js_empty)
    then have "list_all (\<lambda>v. length v = 1) vs" by (rule split_chars_conv)
    with Nil show ?thesis by (simp add: separable_def)
  next
    case (Cons e es)
    with h assms show ?thesis by (simp add: separable_def split_js_def split_join_clean_conv)
  qed
qed





section \<open>The registry and the set constructor on the scenarios of the specification\<close>

text \<open>
  Claim C1, on the code. With the syntaxes \<^verbatim>\<open>["type","id"]\<close> and
  \<^verbatim>\<open>["username","domain"]\<close> registered, the set built from
  \<^verbatim>\<open>{type:"user", id:"123", username:"a", domain:"b.com"}\<close> has one member, under the
  sorted key list as an ad-hoc syntax: \<^verbatim>\<open>getSyntaxes\<close> looks for a registered syntax with
  exactly the keys of the map, not for every syntax whose names are among them. Its
  string is \<^verbatim>\<open>"b.com/123/user/a"\<close>, and both comparisons of the scenario are false.
\<close>

theorem set_from_map_has_one_member:
  "fst (OloIdSet_new
          (OloIdSyntax_new fresh (Some [SynList [''type'', ''id''], SynList [''username'', ''domain'']]) None)
          (SetUri [(''type'', VStr ''user''), (''id'', VStr ''123''),
                   (''username'', VStr ''a''), (''domain'', VStr ''b.com'')])
          no_options)
     = Inr \<lparr>set_uri =
        [(''domain/id/type/username'',
          \<lparr>id_separator = Some ''/'', id_syntax = [''domain'', ''id'', ''type'', ''username''],
           id_uri = [(''domain'', VStr ''b.com''), (''id'', VStr ''123''),
                     (''type'', VStr ''user''), (''username'', VStr ''a'')]\<rparr>)]\<rparr>
   \<and> OloIdSet_toString \<lparr>set_uri =
        [(''domain/id/type/username'',
          \<lparr>id_separator = Some ''/'', id_syntax = [''domain'', ''id'', ''type'', ''username''],
           id_uri = [(''domain'', VStr ''b.com''), (''id'', VStr ''123''),
                     (''type'', VStr ''user''), (''username'', VStr ''a'')]\<rparr>)]\<rparr> = ''b.com/123/user/a''
   \<and> \<not> OloIdSet_isSame \<lparr>set_uri =
        [(''domain/id/type/username'',
          \<lparr>id_separator = Some ''/'', id_syntax = [''domain'', ''id'', ''type'', ''username''],
           id_uri = [(''domain'', VStr ''b.com''), (''id'', VStr ''123''),
                     (''type'', VStr ''user''), (''username'', VStr ''a'')]\<rparr>)]\<rparr>
         (CStr ''user/123'') (Some (SynList [''type'', ''id'']))
   \<and> \<not> OloIdSet_isSame \<lparr>set_uri =
        [(''domain/id/type/username'',
          \<lparr>id_separator = Some ''/'', id_syntax = [''domain'', ''id'', ''type'', ''username''],
           id_uri = [(''domain'', VStr ''b.com''), (''id'', VStr ''123''),
                     (''type'', VStr ''user''), (''username'', VStr ''a'')]\<rparr>)]\<rparr>
         (CUri [(''username'', VStr ''a''), (''domain'', VStr ''b.com'')]) None"
  by code_simp

text \<open>
  Claim C2, on the code. After \<^verbatim>\<open>["a","b"]\<close> is registered, resolving \<^verbatim>\<open>["b","a"]\<close>
  returns \<^verbatim>\<open>[["a","b"]]\<close>, but \<^verbatim>\<open>setSyntaxes([["b","a"]])\<close> adds a second entry for the
  same name set: \<^verbatim>\<open>normSyntax\<close> sorts the keys of an object only, not the names of an
  array or a string.
\<close>

theorem reordered_syntax_registered_twice:
  "fst (getSyntaxes (OloIdSyntax_new fresh (Some [SynList [''a'', ''b'']]) None) QUndefined False)
     = [[''a'', ''b'']]
   \<and> fst (getSyntaxes (OloIdSyntax_new fresh (Some [SynList [''a'', ''b'']]) None)
            (QDef (SynList [''b'', ''a''])) False) = [[''a'', ''b'']]
   \<and> setSyntaxes (OloIdSyntax_new fresh (Some [SynList [''a'', ''b'']]) None) (Some [SynList [''b'', ''a'']])
     = ([[''a'', ''b''], [''b'', ''a'']], \<lparr>separator = Some ''/'', syntaxes = [''a/b'', ''b/a'']\<rparr>)"
  by code_simp

text \<open>
  Claim C3, on the code. Registering \<^verbatim>\<open>["a","b"]\<close> evicts the sentinel, and the next
  construction of an identifier or of a registry instance without arguments puts it
  back next to \<^verbatim>\<open>["a","b"]\<close>: the default argument \<^verbatim>\<open>[ID_TYPE_UNDEFINED]\<close> of the
  constructor is registered like any other syntax.
\<close>

theorem sentinel_returns_with_next_construction:
  "fst (getSyntaxes (run fresh [NewOloIdSyntax None None]) QUndefined False) = [[''UNDEFINED'']]
   \<and> fst (getSyntaxes (run fresh [NewOloIdSyntax None None, SetSyntaxes (Some [SynList [''a'', ''b'']])])
            QUndefined False) = [[''a'', ''b'']]
   \<and> fst (getSyntaxes (run fresh [NewOloIdSyntax None None, SetSyntaxes (Some [SynList [''a'', ''b'']]),
                                   NewOloId (SrcStr ''x/y'') (with_syntax [''a'', ''b''])])
            QUndefined False) = [[''a'', ''b''], [''UNDEFINED'']]
   \<and> syntaxes (run fresh [NewOloIdSyntax None None, SetSyntaxes (Some [SynList [''a'', ''b'']]),
                           NewOloIdSyntax None None])
       = [''a/b'', ''UNDEFINED'']"
  by code_simp

end
